theory Spec2Isabelle
  imports Main
begin

section \<open>Python values, exceptions and frames\<close>

text \<open>
  The decorator \<^verbatim>\<open>silent\<close> of \<^verbatim>\<open>error_catcher.py\<close> observes a Python object in two
  ways only: it compares it by identity with the module's sentinel \<^verbatim>\<open>__UNDEF__\<close>, and it
  formats it inside an f-string, which runs the object's own string conversion and
  may raise. An object is therefore modelled by what these two observations yield.
  The module's sentinel and the sentinel of the standard library's \<^verbatim>\<open>cgitb\<close> are two
  different list objects, both empty.
\<close>

datatype exn =
    ZeroDivisionError | IndexError | AttributeError | NameError
  | TypeError | OSError | KeyboardInterrupt | SystemExit | OtherException string

datatype pyval =
    PyNone
  | UNDEF_module
  | UNDEF_cgitb
  | Obj "exn + string"

fun py_format :: "pyval \<Rightarrow> exn + string" where
  "py_format PyNone = Inr ''None''"
| "py_format UNDEF_module = Inr ''[]''"
| "py_format UNDEF_cgitb = Inr ''[]''"
| "py_format (Obj r) = r"

text \<open>
  An entry of the list that \<^verbatim>\<open>cgitb.scanvars\<close> returns is a triple of the name, the
  place it was found in (\<^verbatim>\<open>None\<close>, or a string such as \<^verbatim>\<open>'local'\<close>) and the value.
\<close>

type_synonym caught_var = "string \<times> string option \<times> pyval"

fun format_where :: "string option \<Rightarrow> string" where
  "format_where None = ''None''"
| "format_where (Some s) = s"

fun truthy :: "string option \<Rightarrow> bool" where
  "truthy None = False"
| "truthy (Some s) = (s \<noteq> [])"

text \<open>
  A record of \<^verbatim>\<open>inspect.getinnerframes\<close>: the file, the line number, the frame's local
  and global names, the names of the module \<^verbatim>\<open>__builtins__\<close> that the frame's globals
  refer to, and the outcome of the call \<^verbatim>\<open>cgitb.scanvars(reader, frame, locals)\<close> for the
  frame. The tokenizer of the standard library is not part of this program, so the
  outcome is taken as it comes: the list of entries, or the exception the call raises
  (the tokenizer's on a statement it cannot finish, or that of a property read while
  an attribute is looked up).
\<close>

record frame =
  f_file :: string
  f_lnum :: nat
  f_locals :: "string \<rightharpoonup> pyval"
  f_globals :: "string \<rightharpoonup> pyval"
  f_builtins :: "string \<rightharpoonup> pyval"
  scanvars_result :: "exn + caught_var list"

text \<open>\<^verbatim>\<open>cgitb.lookup\<close>: local names first, then global names, then builtins.\<close>

definition lookup :: "string \<Rightarrow> frame \<Rightarrow> (string \<rightharpoonup> pyval) \<Rightarrow> string option \<times> pyval" where
  "lookup name fr locals =
     (case locals name of
        Some v \<Rightarrow> (Some ''local'', v)
      | None \<Rightarrow>
         (case f_globals fr name of
            Some v \<Rightarrow> (Some ''global'', v)
          | None \<Rightarrow>
             (case f_builtins fr name of
                Some v \<Rightarrow> (Some ''builtin'', v)
              | None \<Rightarrow> (None, UNDEF_cgitb))))"

section \<open>Decimal rendering of a line number\<close>

definition digit_char :: "nat \<Rightarrow> char" where
  "digit_char d = ''0123456789'' ! d"

fun str_nat :: "nat \<Rightarrow> string" where
  "str_nat n = (if n < 10 then [digit_char n] else str_nat (n div 10) @ [digit_char (n mod 10)])"

declare str_nat.simps [simp del]

section \<open>parse_vars\<close>

text \<open>
  The loop of \<^verbatim>\<open>parse_vars\<close>, with its two variables \<^verbatim>\<open>done\<close> (a dictionary used as a
  set of names) and \<^verbatim>\<open>dump\<close>. Formatting the value may raise; the exception leaves the
  function.
\<close>

fun parse_vars_loop ::
  "(string \<rightharpoonup> nat) \<Rightarrow> string list \<Rightarrow> caught_var list \<Rightarrow> exn + string list" where
  "parse_vars_loop done_names dump [] = Inr dump"
| "parse_vars_loop done_names dump ((name, wh, val) # vars) =
     (if name \<in> dom done_names then parse_vars_loop done_names dump vars
      else if val \<noteq> UNDEF_module then
        (case py_format val of
           Inl e \<Rightarrow> Inl e
         | Inr s \<Rightarrow>
             parse_vars_loop (done_names(name \<mapsto> 1))
               (dump @ [format_where wh @ '': '' @ name @ '' = '' @ s]) vars)
      else parse_vars_loop (done_names(name \<mapsto> 1)) (dump @ [name @ '' undefined'']) vars)"

definition parse_vars :: "caught_var list \<Rightarrow> exn + string list" where
  "parse_vars vars = parse_vars_loop Map.empty [] vars"

section \<open>variable_catching\<close>

text \<open>The inner loop over \<^verbatim>\<open>key_vars\<close> that collects \<^verbatim>\<open>_manual_caught_vars\<close>.\<close>

fun manual_loop ::
  "string list \<Rightarrow> frame \<Rightarrow> caught_var list \<Rightarrow> string list \<Rightarrow> caught_var list" where
  "manual_loop done_names fr acc [] = acc"
| "manual_loop done_names fr acc (key_var # key_vars) =
     (if key_var \<notin> set done_names then
        (case lookup key_var fr (f_locals fr) of
           (wh, val) \<Rightarrow>
             if truthy wh then manual_loop done_names fr (acc @ [(key_var, wh, val)]) key_vars
             else manual_loop done_names fr acc key_vars)
      else manual_loop done_names fr acc key_vars)"

text \<open>The loops that write one line per entry, cut to 200 characters.\<close>

fun emit_vars :: "string \<Rightarrow> string list \<Rightarrow> string" where
  "emit_vars error_message [] = error_message"
| "emit_vars error_message (var # vars) =
     emit_vars (error_message @ ''  |-- '' @ take 200 var @ ''\<newline>'') vars"

text \<open>
  The loop over the records, with its state \<^verbatim>\<open>error_message\<close> and \<^verbatim>\<open>flag\<close>. Nothing in it
  catches an exception: one raised by \<^verbatim>\<open>cgitb.scanvars\<close> or by \<^verbatim>\<open>parse_vars\<close> leaves the
  function.
\<close>

fun catching_loop :: "string list \<Rightarrow> string \<Rightarrow> nat \<Rightarrow> frame list \<Rightarrow> exn + string" where
  "catching_loop key_vars error_message flag [] = Inr error_message"
| "catching_loop key_vars error_message flag (fr # records) =
     (case scanvars_result fr of
        Inl e \<Rightarrow> Inl e
      | Inr scanned \<Rightarrow>
     (case parse_vars scanned of
        Inl e \<Rightarrow> Inl e
      | Inr auto_caught_vars \<Rightarrow>
         (case parse_vars (manual_loop (map fst scanned) fr [] key_vars) of
            Inl e \<Rightarrow> Inl e
          | Inr manual_caught_vars \<Rightarrow>
             (let some = (length auto_caught_vars + length manual_caught_vars \<noteq> 0);
                  m1 = (if some \<and> flag \<noteq> 0 then error_message @ ''/*Variables*/\<newline>''
                        else error_message);
                  flag' = (if some \<and> flag \<noteq> 0 then 0 else flag);
                  m2 = (if some
                        then m1 @ f_file fr @ '', line '' @ str_nat (f_lnum fr) @ ''\<newline>''
                        else m1);
                  m3 = (if auto_caught_vars \<noteq> []
                        then emit_vars (m2 @ ''|-- Detected relevant vars:\<newline>'') auto_caught_vars
                        else m2);
                  m4 = (if manual_caught_vars \<noteq> []
                        then emit_vars (m3 @ ''|-- Other traced vars:\<newline>'') manual_caught_vars
                        else m3)
              in catching_loop key_vars m4 flag' records))))"

definition variable_catching :: "string list \<Rightarrow> frame list \<Rightarrow> exn + string" where
  "variable_catching key_vars records = catching_loop key_vars [] 1 records"

section \<open>The decorator\<close>

text \<open>
  The world the decorated callable runs in: what has been printed to standard output
  so far, the text files by path, and the paths that cannot be opened (opening one of
  them raises \<^verbatim>\<open>OSError\<close>).
\<close>

record world =
  stdout :: string
  files :: "string \<rightharpoonup> string"
  denied :: "string set"

definition print :: "string \<Rightarrow> world \<Rightarrow> world" where
  "print s w = w\<lparr>stdout := stdout w @ s @ ''\<newline>''\<rparr>"

text \<open>
  What running the wrapped callable gives: a returned value, or an exception together
  with what the handler reads of it, the text of \<^verbatim>\<open>traceback.format_exc()\<close> and the
  records of \<^verbatim>\<open>inspect.getinnerframes\<close>. The callable may itself print and write files.
\<close>

datatype outcome =
    Returned pyval
  | Raised exn string "frame list"

type_synonym callable = "world \<Rightarrow> outcome \<times> world"

record config =
  key_vars :: "string list"
  log_file :: string
  ascending :: bool

text \<open>
  \<^verbatim>\<open>open(log_file, 'a+')\<close> creates the file when it is absent; \<^verbatim>\<open>open(log_file, 'r+')\<close>
  needs it to exist. Both open the file in text mode: \<^verbatim>\<open>read()\<close> hands back the content
  with every CR LF and every single CR turned into LF. Written text is stored as it
  is (the platform's line separator is LF). Writing at position 0 of a file opened
  with \<^verbatim>\<open>'r+'\<close> overwrites the first characters and keeps what lies behind them.
\<close>

definition CR :: char where
  "CR = CHR 0x0D"

definition LF :: char where
  "LF = CHR ''\<newline>''"

fun universal_newlines :: "string \<Rightarrow> string" where
  "universal_newlines [] = []"
| "universal_newlines [c] = (if c = CR then [LF] else [c])"
| "universal_newlines (c # d # s) =
     (if c = CR then
        (if d = LF then LF # universal_newlines s else LF # universal_newlines (d # s))
      else c # universal_newlines (d # s))"

definition open_append :: "string \<Rightarrow> world \<Rightarrow> exn + world" where
  "open_append path w =
     (if path \<in> denied w then Inl OSError
      else Inr (case files w path of
                  None \<Rightarrow> w\<lparr>files := (files w)(path \<mapsto> [])\<rparr>
                | Some _ \<Rightarrow> w))"

definition read_update :: "string \<Rightarrow> world \<Rightarrow> exn + string" where
  "read_update path w =
     (if path \<in> denied w then Inl OSError
      else case files w path of
             None \<Rightarrow> Inl OSError
           | Some content \<Rightarrow> Inr (universal_newlines content))"

definition write_at_start :: "string \<Rightarrow> string \<Rightarrow> string" where
  "write_at_start new old = new @ drop (length new) old"

definition write_log :: "string \<Rightarrow> bool \<Rightarrow> string \<Rightarrow> world \<Rightarrow> exn + world" where
  "write_log path asc error_message w =
     (case open_append path w of
        Inl e \<Rightarrow> Inl e
      | Inr w1 \<Rightarrow>
         (if asc then
            Inr (w1\<lparr>files := (files w1)(path \<mapsto>
                   (case files w1 path of None \<Rightarrow> [] | Some content \<Rightarrow> content) @ error_message)\<rparr>)
          else
            (case read_update path w1 of
               Inl e \<Rightarrow> Inl e
             | Inr content \<Rightarrow>
                 Inr (w1\<lparr>files := (files w1)(path \<mapsto>
                        write_at_start (error_message @ content)
                          (case files w1 path of None \<Rightarrow> [] | Some stored \<Rightarrow> stored))\<rparr>))))"

text \<open>
  \<^verbatim>\<open>decorated\<close>: the clock's reading, already formatted, is the argument \<^verbatim>\<open>timestamp\<close>.
  The function has no \<^verbatim>\<open>return\<close> statement, so what it returns is \<^verbatim>\<open>None\<close>.
\<close>

definition decorated :: "config \<Rightarrow> callable \<Rightarrow> string \<Rightarrow> world \<Rightarrow> (exn + pyval) \<times> world" where
  "decorated cfg func timestamp w =
     (case func w of
        (Returned v, w1) \<Rightarrow> (Inr PyNone, w1)
      | (Raised e format_exc records, w1) \<Rightarrow>
         (let error_message =
                replicate 32 (CHR ''-'') @ ''\<newline>'' @ timestamp
                @ ''\<newline>\<newline>/*Original Traceback*/\<newline>'' @ format_exc @ ''\<newline>''
          in case variable_catching (key_vars cfg) records of
               Inl e' \<Rightarrow> (Inl e', w1)
             | Inr vars_message \<Rightarrow>
                (let m1 = error_message @ vars_message;
                     m2 = (if m1 \<noteq> [] then m1 @ ''\<newline>\<newline>'' else m1)
                 in if log_file cfg \<noteq> [] then
                      (let w2 = print (''Exception caught. See '' @ log_file cfg @ ''.'') w1
                       in case write_log (log_file cfg) (ascending cfg) m2 w2 of
                            Inl e' \<Rightarrow> (Inl e', w2)
                          | Inr w3 \<Rightarrow> (Inr PyNone, w3))
                    else (Inr PyNone, print m2 w1))))"

text \<open>
  Calling a Python function binds the arguments to the parameters before the body
  runs. For a function whose parameters are plain names without defaults, the binding
  fails with \<^verbatim>\<open>TypeError\<close> on a surplus positional argument, on a keyword that is no
  parameter or is already bound, and on a parameter left without a value.
  \<^verbatim>\<open>decorated\<close> is declared with no parameter at all.
\<close>

fun bind_keywords ::
  "string list \<Rightarrow> (string \<rightharpoonup> pyval) \<Rightarrow> (string \<times> pyval) list \<Rightarrow> exn + (string \<rightharpoonup> pyval)" where
  "bind_keywords params env [] = Inr env"
| "bind_keywords params env ((k, v) # kwargs) =
     (if k \<notin> set params \<or> k \<in> dom env then Inl TypeError
      else bind_keywords params (env(k \<mapsto> v)) kwargs)"

definition bind_args ::
  "string list \<Rightarrow> pyval list \<Rightarrow> (string \<times> pyval) list \<Rightarrow> exn + (string \<rightharpoonup> pyval)" where
  "bind_args params args kwargs =
     (if length params < length args then Inl TypeError
      else case bind_keywords params (map_of (zip params args)) kwargs of
             Inl e \<Rightarrow> Inl e
           | Inr env \<Rightarrow> if set params \<subseteq> dom env then Inr env else Inl TypeError)"

definition call_decorated ::
  "config \<Rightarrow> callable \<Rightarrow> string \<Rightarrow> pyval list \<Rightarrow> (string \<times> pyval) list \<Rightarrow> world
     \<Rightarrow> (exn + pyval) \<times> world" where
  "call_decorated cfg func timestamp args kwargs w =
     (case bind_args [] args kwargs of
        Inl e \<Rightarrow> (Inl e, w)
      | Inr env \<Rightarrow> decorated cfg func timestamp w)"

section \<open>The report, described independently of the loops\<close>

text \<open>
  What follows is not taken from the source: it says what the loops above are
  expected to compute, in closed form, and the lemmas below show that they do.
  The text of one entry is what the body of the loop of \<^verbatim>\<open>parse_vars\<close> appends for it.
\<close>

text \<open>
  The entries of a frame: those \<^verbatim>\<open>cgitb.scanvars\<close> returned for it, and those the loop
  over \<^verbatim>\<open>key_vars\<close> collects for it.
\<close>

definition scanvars :: "frame \<Rightarrow> caught_var list" where
  "scanvars fr = (case scanvars_result fr of Inl e \<Rightarrow> [] | Inr scanned \<Rightarrow> scanned)"

definition manual_caught :: "string list \<Rightarrow> frame \<Rightarrow> caught_var list" where
  "manual_caught ks fr = manual_loop (map fst (scanvars fr)) fr [] ks"

fun entry_text :: "caught_var \<Rightarrow> exn + string" where
  "entry_text (name, wh, val) =
     (if val \<noteq> UNDEF_module then
        (case py_format val of
           Inl e \<Rightarrow> Inl e
         | Inr s \<Rightarrow> Inr (format_where wh @ '': '' @ name @ '' = '' @ s))
      else Inr (name @ '' undefined''))"

text \<open>The entries that carry a name for the first time, names of \<open>S\<close> apart.\<close>

fun first_by_name :: "string set \<Rightarrow> caught_var list \<Rightarrow> caught_var list" where
  "first_by_name S [] = []"
| "first_by_name S (v # vs) =
     (if fst v \<in> S then first_by_name S vs else v # first_by_name (insert (fst v) S) vs)"

text \<open>All results in order, or the first exception.\<close>

fun collect :: "(exn + 'a) list \<Rightarrow> exn + 'a list" where
  "collect [] = Inr []"
| "collect (Inl e # rs) = Inl e"
| "collect (Inr x # rs) = (case collect rs of Inl e \<Rightarrow> Inl e | Inr xs \<Rightarrow> Inr (x # xs))"

definition entry_line :: "string \<Rightarrow> string" where
  "entry_line var = ''  |-- '' @ take 200 var @ ''\<newline>''"

definition auto_lines :: "frame \<Rightarrow> string list" where
  "auto_lines fr = (case parse_vars (scanvars fr) of Inl e \<Rightarrow> [] | Inr dump \<Rightarrow> dump)"

definition manual_lines :: "string list \<Rightarrow> frame \<Rightarrow> string list" where
  "manual_lines ks fr = (case parse_vars (manual_caught ks fr) of Inl e \<Rightarrow> [] | Inr dump \<Rightarrow> dump)"

text \<open>
  A frame renders when \<^verbatim>\<open>cgitb.scanvars\<close> returns for it and formatting raises for none
  of its entries.
\<close>

definition renders :: "string list \<Rightarrow> frame \<Rightarrow> bool" where
  "renders ks fr \<longleftrightarrow>
     \<not> isl (scanvars_result fr) \<and> \<not> isl (parse_vars (scanvars fr))
     \<and> \<not> isl (parse_vars (manual_caught ks fr))"

definition has_findings :: "string list \<Rightarrow> frame \<Rightarrow> bool" where
  "has_findings ks fr \<longleftrightarrow> auto_lines fr \<noteq> [] \<or> manual_lines ks fr \<noteq> []"

text \<open>
  The section of one frame: the line with the file and the line number, the detected
  variables under their heading, the other traced variables under theirs; each part
  only when there is something to show.
\<close>

definition frame_section :: "string list \<Rightarrow> frame \<Rightarrow> string" where
  "frame_section ks fr =
     (if has_findings ks fr
      then f_file fr @ '', line '' @ str_nat (f_lnum fr) @ ''\<newline>'' else [])
     @ (if auto_lines fr \<noteq> []
        then ''|-- Detected relevant vars:\<newline>'' @ concat (map entry_line (auto_lines fr)) else [])
     @ (if manual_lines ks fr \<noteq> []
        then ''|-- Other traced vars:\<newline>'' @ concat (map entry_line (manual_lines ks fr)) else [])"



text \<open>
  The same section, written from the entries themselves: the entries that get a line
  under each heading, the full text of an entry, and its line in the report, which
  shows the first 200 characters of that text.
\<close>

definition detected :: "frame \<Rightarrow> caught_var list" where
  "detected fr = first_by_name {} (scanvars fr)"

definition traced :: "string list \<Rightarrow> frame \<Rightarrow> caught_var list" where
  "traced ks fr = first_by_name {} (manual_caught ks fr)"

definition finding_text :: "caught_var \<Rightarrow> string" where
  "finding_text v = (case entry_text v of Inl e \<Rightarrow> [] | Inr t \<Rightarrow> t)"

definition finding_line :: "caught_var \<Rightarrow> string" where
  "finding_line v = ''  |-- '' @ take 200 (finding_text v) @ ''\<newline>''"

definition findings_section :: "string list \<Rightarrow> frame \<Rightarrow> string" where
  "findings_section ks fr =
     (if detected fr \<noteq> [] \<or> traced ks fr \<noteq> []
      then f_file fr @ '', line '' @ str_nat (f_lnum fr) @ ''\<newline>'' else [])
     @ (if detected fr \<noteq> []
        then ''|-- Detected relevant vars:\<newline>'' @ concat (map finding_line (detected fr)) else [])
     @ (if traced ks fr \<noteq> []
        then ''|-- Other traced vars:\<newline>'' @ concat (map finding_line (traced ks fr)) else [])"

definition variables_heading :: "string list \<Rightarrow> frame list \<Rightarrow> string" where
  "variables_heading ks records =
     (if \<exists>fr\<in>set records. detected fr \<noteq> [] \<or> traced ks fr \<noteq> []
      then ''/*Variables*/\<newline>'' else [])"


section \<open>Concrete inputs\<close>

text \<open>
  The frame of the test file's \<^verbatim>\<open>foo4\<close>, which fails at \<^verbatim>\<open>return k / i\<close> with
  \<^verbatim>\<open>i, j, k = 0, 1, 2\<close> and the global \<^verbatim>\<open>l = 4\<close>.
\<close>

definition frame_foo :: frame where
  "frame_foo = \<lparr>f_file = ''test.py'', f_lnum = 26,
     f_locals = [''i'' \<mapsto> Obj (Inr ''0''), ''j'' \<mapsto> Obj (Inr ''1''), ''k'' \<mapsto> Obj (Inr ''2'')],
     f_globals = [''l'' \<mapsto> Obj (Inr ''4'')],
     f_builtins = [''len'' \<mapsto> Obj (Inr ''<built-in function len>'')],
     scanvars_result = Inr [(''k'', Some ''local'', Obj (Inr ''2'')), (''i'', Some ''local'', Obj (Inr ''0''))]\<rparr>"

text \<open>A frame that fails at \<^verbatim>\<open>print(x)\<close> with \<^verbatim>\<open>x\<close> bound nowhere.\<close>

definition frame_print_x :: frame where
  "frame_print_x = \<lparr>f_file = ''t.py'', f_lnum = 3,
     f_locals = Map.empty, f_globals = Map.empty,
     f_builtins = [''len'' \<mapsto> Obj (Inr ''<built-in function len>''),
                   ''print'' \<mapsto> Obj (Inr ''<built-in function print>'')],
     scanvars_result = Inr [(''print'', Some ''builtin'', Obj (Inr ''<built-in function print>'')),
                 (''x'', None, UNDEF_cgitb)]\<rparr>"

text \<open>A frame whose failing line mentions a string of 300 characters.\<close>

definition frame_long :: frame where
  "frame_long = \<lparr>f_file = ''big.py'', f_lnum = 7,
     f_locals = [''x'' \<mapsto> Obj (Inr (replicate 300 (CHR ''a'')))],
     f_globals = Map.empty, f_builtins = Map.empty,
     scanvars_result = Inr [(''x'', Some ''local'', Obj (Inr (replicate 300 (CHR ''a''))))]\<rparr>"


definition world0 :: world where
  "world0 = \<lparr>stdout = [], files = Map.empty, denied = {}\<rparr>"

definition cfg_print :: config where
  "cfg_print = \<lparr>key_vars = [''i'', ''l''], log_file = [], ascending = False\<rparr>"


definition returns_42 :: callable where
  "returns_42 w = (Returned (Obj (Inr ''42'')), w)"


text \<open>A frame whose failing line mentions no name.\<close>

definition frame_quiet :: frame where
  "frame_quiet = \<lparr>f_file = ''quiet.py'', f_lnum = 1,
     f_locals = Map.empty, f_globals = Map.empty, f_builtins = Map.empty,
     scanvars_result = Inr []\<rparr>"






section \<open>The loops compute the report\<close>

lemma emit_vars_concat: "emit_vars error_message vars = error_message @ concat (map entry_line vars)"
  by (induction vars arbitrary: error_message) (simp_all add: entry_line_def)

lemma parse_vars_loop_collect:
  "parse_vars_loop done_names dump vars =
     (case collect (map entry_text (first_by_name (dom done_names) vars)) of
        Inl e \<Rightarrow> Inl e
      | Inr ls \<Rightarrow> Inr (dump @ ls))"
proof (induction vars arbitrary: done_names dump)
  case Nil
  show ?case by simp
next
  case (Cons v vars)
  obtain name wh val where v: "v = (name, wh, val)" by (cases v)
  have d: "dom (done_names(name \<mapsto> 1)) = insert name (dom done_names)" by simp
  show ?case
  proof (cases "name \<in> dom done_names")
    case True
    then show ?thesis unfolding v by (simp add: Cons.IH [of done_names dump])
  next
    case False
    show ?thesis
    proof (cases "val = UNDEF_module")
      case True
      with False show ?thesis unfolding v
        by (simp add: Cons.IH [of "done_names(name \<mapsto> 1)"] d del: dom_fun_upd fun_upd_apply One_nat_def split: sum.splits)
    next
      case nu: False
      show ?thesis
      proof (cases "py_format val")
        case (Inl e)
        with False nu show ?thesis unfolding v by simp
      next
        case (Inr s)
        with False nu show ?thesis unfolding v
          by (simp add: Cons.IH [of "done_names(name \<mapsto> 1)"] d del: dom_fun_upd fun_upd_apply One_nat_def split: sum.splits)
      qed
    qed
  qed
qed

lemma parse_vars_collect:
  "parse_vars vars = collect (map entry_text (first_by_name {} vars))"
  by (simp add: parse_vars_def parse_vars_loop_collect split: sum.splits)

lemma manual_loop_filter:
  "manual_loop done_names fr acc ks =
     acc @ map (\<lambda>k. (k, lookup k fr (f_locals fr)))
             (filter (\<lambda>k. k \<notin> set done_names \<and> truthy (fst (lookup k fr (f_locals fr)))) ks)"
  by (induction ks arbitrary: acc) (auto split: prod.splits)

lemma manual_caught_filter:
  "manual_caught ks fr =
     map (\<lambda>k. (k, lookup k fr (f_locals fr)))
       (filter (\<lambda>k. k \<notin> fst ` set (scanvars fr) \<and> truthy (fst (lookup k fr (f_locals fr)))) ks)"
  by (simp add: manual_caught_def manual_loop_filter)

lemma first_by_name_names: "fst ` set (first_by_name S vs) = fst ` set vs - S"
  by (induction vs arbitrary: S) auto

lemma first_by_name_subset: "set (first_by_name S vs) \<subseteq> set vs"
  by (induction vs arbitrary: S) auto

lemma first_by_name_distinct: "distinct (map fst (first_by_name S vs))"
  by (induction vs arbitrary: S) (auto simp: first_by_name_names)

lemma collect_length: "collect rs = Inr xs \<Longrightarrow> length xs = length rs"
  by (induction rs arbitrary: xs rule: collect.induct) (auto split: sum.splits)

lemma collect_Inr_iff: "(\<exists>xs. collect rs = Inr xs) \<longleftrightarrow> (\<forall>r\<in>set rs. \<exists>x. r = Inr x)"
  by (induction rs rule: collect.induct) (auto split: sum.splits)

lemma collect_nth: "collect rs = Inr xs \<Longrightarrow> i < length rs \<Longrightarrow> rs ! i = Inr (xs ! i)"
proof (induction rs arbitrary: xs i rule: collect.induct)
  case (3 x rs)
  then show ?case by (cases i) (auto split: sum.splits)
qed auto

lemma catching_loop_step:
  assumes "renders ks fr"
  shows "catching_loop ks error_message flag (fr # records) =
           catching_loop ks
             (error_message
              @ (if flag \<noteq> 0 \<and> has_findings ks fr then ''/*Variables*/\<newline>'' else [])
              @ frame_section ks fr)
             (if has_findings ks fr then 0 else flag) records"
proof -
  from assms obtain sc where sc: "scanvars_result fr = Inr sc"
    unfolding renders_def by (cases "scanvars_result fr") simp_all
  then have s: "scanvars fr = sc" by (simp add: scanvars_def)
  from assms obtain a where a: "parse_vars sc = Inr a"
    unfolding renders_def s by (cases "parse_vars sc") simp_all
  from assms obtain m where m: "parse_vars (manual_loop (map fst sc) fr [] ks) = Inr m"
    unfolding renders_def manual_caught_def s
    by (cases "parse_vars (manual_loop (map fst sc) fr [] ks)") simp_all
  have al: "auto_lines fr = a" and ml: "manual_lines ks fr = m"
    by (simp_all add: auto_lines_def manual_lines_def manual_caught_def s a m)
  show ?thesis
    by (simp add: sc a m frame_section_def has_findings_def al ml emit_vars_concat Let_def)
qed

lemma catching_loop_fails:
  assumes "\<not> renders ks fr"
  shows "isl (catching_loop ks error_message flag (fr # records))"
  using assms unfolding renders_def manual_caught_def scanvars_def by (auto split: sum.splits)

lemma catching_loop_sections:
  assumes "\<forall>fr\<in>set records. renders ks fr"
  shows "catching_loop ks error_message flag records =
           Inr (error_message
                @ (if flag \<noteq> 0 \<and> (\<exists>fr\<in>set records. has_findings ks fr)
                   then ''/*Variables*/\<newline>'' else [])
                @ concat (map (frame_section ks) records))"
  using assms
proof (induction records arbitrary: error_message flag)
  case Nil
  show ?case by simp
next
  case (Cons fr records)
  have r: "renders ks fr" and rs: "\<forall>fr\<in>set records. renders ks fr"
    using Cons.prems by simp_all
  show ?case
  proof (cases "has_findings ks fr")
    case True
    show ?thesis
      by (simp add: catching_loop_step [OF r] Cons.IH [OF rs] True del: catching_loop.simps)
  next
    case False
    then have "frame_section ks fr = []"
      by (simp add: frame_section_def has_findings_def)
    then show ?thesis
      by (simp add: catching_loop_step [OF r] Cons.IH [OF rs] False del: catching_loop.simps)
  qed
qed

lemma catching_loop_Inr_iff:
  "\<not> isl (catching_loop ks error_message flag records) \<longleftrightarrow> (\<forall>fr\<in>set records. renders ks fr)"
proof (induction records arbitrary: error_message flag)
  case Nil
  show ?case by simp
next
  case (Cons fr records)
  show ?case
  proof (cases "renders ks fr")
    case True
    then show ?thesis by (simp add: catching_loop_step Cons.IH del: catching_loop.simps)
  next
    case False
    then show ?thesis using catching_loop_fails [OF False] by (simp del: catching_loop.simps)
  qed
qed


lemma manual_caught_names:
  "fst ` set (manual_caught ks fr) =
     {k \<in> set ks. k \<notin> fst ` set (scanvars fr) \<and> truthy (fst (lookup k fr (f_locals fr)))}"
  unfolding manual_caught_filter by (force simp: image_iff)

lemma count_name_distinct:
  "distinct (map fst vs) \<Longrightarrow> name \<in> fst ` set vs \<Longrightarrow> length (filter (\<lambda>v. fst v = name) vs) = 1"
proof (induction vs)
  case Nil
  then show ?case by simp
next
  case (Cons v vs)
  show ?case
  proof (cases "fst v = name")
    case True
    with Cons.prems have "name \<notin> fst ` set vs" by auto
    then have "filter (\<lambda>v. fst v = name) vs = []" by (auto simp: filter_empty_conv)
    with True show ?thesis by simp
  next
    case False
    with Cons show ?thesis by auto
  qed
qed

lemma bind_keywords_no_params: "kwargs \<noteq> [] \<Longrightarrow> bind_keywords [] env kwargs = Inl TypeError"
  by (cases kwargs) auto

lemma lookup_None_iff:
  "fst (lookup name fr (f_locals fr)) = None \<longleftrightarrow>
     f_locals fr name = None \<and> f_globals fr name = None \<and> f_builtins fr name = None"
  by (auto simp: lookup_def split: option.splits)




lemma variable_catching_sections:
  assumes "\<forall>fr\<in>set records. renders ks fr"
  shows "variable_catching ks records =
           Inr ((if \<exists>fr\<in>set records. has_findings ks fr then ''/*Variables*/\<newline>'' else [])
                @ concat (map (frame_section ks) records))"
  unfolding variable_catching_def by (simp add: catching_loop_sections [OF assms])

lemma variable_catching_Inr_iff:
  "\<not> isl (variable_catching ks records) \<longleftrightarrow> (\<forall>fr\<in>set records. renders ks fr)"
  unfolding variable_catching_def by (rule catching_loop_Inr_iff)





lemma first_by_name_Nil_iff: "first_by_name {} vs = [] \<longleftrightarrow> vs = []"
  by (cases vs) simp_all

lemma parse_vars_Nil_iff:
  assumes "parse_vars vars = Inr dump"
  shows "dump = [] \<longleftrightarrow> vars = []"
proof -
  have "length dump = length (first_by_name {} vars)"
    using assms collect_length [of "map entry_text (first_by_name {} vars)" dump]
    by (simp add: parse_vars_collect)
  then have "dump = [] \<longleftrightarrow> first_by_name {} vars = []"
    by (metis length_0_conv)
  then show ?thesis by (simp only: first_by_name_Nil_iff)
qed

lemma has_findings_iff:
  assumes "renders ks fr"
  shows "has_findings ks fr \<longleftrightarrow> scanvars fr \<noteq> [] \<or> manual_caught ks fr \<noteq> []"
proof -
  from assms obtain a m where a: "parse_vars (scanvars fr) = Inr a"
    and m: "parse_vars (manual_caught ks fr) = Inr m"
    unfolding renders_def by (metis isl_def sum.exhaust_sel sum.collapse(2))
  show ?thesis
    using parse_vars_Nil_iff [OF a] parse_vars_Nil_iff [OF m]
    by (simp add: has_findings_def auto_lines_def manual_lines_def a m)
qed


lemmas eval_defs = variable_catching_def parse_vars_def manual_caught_def scanvars_def
  lookup_def str_nat.simps digit_char_def



lemma collect_map_Inr:
  assumes "collect (map f xs) = Inr ys"
  shows "ys = map (\<lambda>x. case f x of Inl e \<Rightarrow> [] | Inr t \<Rightarrow> t) xs \<and> (\<forall>x\<in>set xs. f x = Inr (case f x of Inl e \<Rightarrow> [] | Inr t \<Rightarrow> t))"
  using assms
proof (induction xs arbitrary: ys)
  case Nil
  then show ?case by simp
next
  case (Cons x xs)
  show ?case
  proof (cases "f x")
    case (Inl e)
    with Cons.prems show ?thesis by simp
  next
    case (Inr t)
    with Cons.prems obtain zs where zs: "collect (map f xs) = Inr zs" and ys: "ys = t # zs"
      by (cases "collect (map f xs)") auto
    from Cons.IH [OF zs] Inr ys show ?thesis by simp
  qed
qed

lemma parse_vars_findings:
  assumes "parse_vars vars = Inr dump"
  shows "dump = map finding_text (first_by_name {} vars)"
    and "\<forall>v\<in>set (first_by_name {} vars). entry_text v = Inr (finding_text v)"
  using collect_map_Inr [of entry_text "first_by_name {} vars" dump] assms
  unfolding parse_vars_collect finding_text_def by blast+

lemma renders_lines:
  assumes "renders ks fr"
  shows "auto_lines fr = map finding_text (detected fr)"
    and "manual_lines ks fr = map finding_text (traced ks fr)"
    and "\<forall>v\<in>set (detected fr) \<union> set (traced ks fr). entry_text v = Inr (finding_text v)"
proof -
  from assms obtain a where a: "parse_vars (scanvars fr) = Inr a"
    unfolding renders_def by (cases "parse_vars (scanvars fr)") simp_all
  from assms obtain m where m: "parse_vars (manual_caught ks fr) = Inr m"
    unfolding renders_def by (cases "parse_vars (manual_caught ks fr)") simp_all
  show "auto_lines fr = map finding_text (detected fr)"
    using parse_vars_findings(1) [OF a] by (simp add: auto_lines_def a detected_def)
  show "manual_lines ks fr = map finding_text (traced ks fr)"
    using parse_vars_findings(1) [OF m] by (simp add: manual_lines_def m traced_def)
  show "\<forall>v\<in>set (detected fr) \<union> set (traced ks fr). entry_text v = Inr (finding_text v)"
    using parse_vars_findings(2) [OF a] parse_vars_findings(2) [OF m]
    by (auto simp: detected_def traced_def)
qed

lemma entry_line_finding: "entry_line (finding_text v) = finding_line v"
  by (simp add: entry_line_def finding_line_def)

lemma renders_section:
  assumes "renders ks fr"
  shows "frame_section ks fr = findings_section ks fr"
    and "has_findings ks fr \<longleftrightarrow> detected fr \<noteq> [] \<or> traced ks fr \<noteq> []"
  unfolding frame_section_def findings_section_def has_findings_def
    renders_lines(1) [OF assms] renders_lines(2) [OF assms]
  by (simp_all add: o_def entry_line_finding)

lemma variable_catching_findings:
  assumes "variable_catching ks records = Inr msg"
  shows "msg = variables_heading ks records @ concat (map (findings_section ks) records)"
proof -
  have r: "\<forall>fr\<in>set records. renders ks fr"
    using assms variable_catching_Inr_iff [of ks records] by simp
  have s: "concat (map (frame_section ks) records) = concat (map (findings_section ks) records)"
    using r by (simp add: renders_section(1) cong: map_cong)
  have "(\<exists>fr\<in>set records. has_findings ks fr)
      \<longleftrightarrow> (\<exists>fr\<in>set records. detected fr \<noteq> [] \<or> traced ks fr \<noteq> [])"
    using r renders_section(2) by blast
  then have h: "(if \<exists>fr\<in>set records. has_findings ks fr then ''/*Variables*/\<newline>'' else [])
      = variables_heading ks records"
    unfolding variables_heading_def by (rule if_cong) simp_all
  have "variable_catching ks records =
          Inr (variables_heading ks records @ concat (map (findings_section ks) records))"
    using variable_catching_sections [OF r] unfolding h s .
  then show ?thesis using assms by simp
qed








lemma manual_loop_removeAll:
  assumes "\<not> truthy (fst (lookup name fr (f_locals fr)))"
  shows "manual_loop done_names fr acc (removeAll name ks) = manual_loop done_names fr acc ks"
proof -
  have "filter (\<lambda>k. k \<notin> set done_names \<and> truthy (fst (lookup k fr (f_locals fr)))) (removeAll name ks)
      = filter (\<lambda>k. k \<notin> set done_names \<and> truthy (fst (lookup k fr (f_locals fr)))) ks"
    using assms by (induction ks) auto
  then show ?thesis by (simp add: manual_loop_filter)
qed

lemma catching_loop_removeAll:
  assumes "\<forall>fr\<in>set records. \<not> truthy (fst (lookup name fr (f_locals fr)))"
  shows "catching_loop (removeAll name ks) error_message flag records
       = catching_loop ks error_message flag records"
  using assms
proof (induction records arbitrary: error_message flag)
  case Nil
  show ?case by simp
next
  case (Cons fr records)
  have m: "\<And>d. manual_loop d fr [] (removeAll name ks) = manual_loop d fr [] ks"
    using Cons.prems by (simp add: manual_loop_removeAll)
  have ih: "\<And>em fl. catching_loop (removeAll name ks) em fl records = catching_loop ks em fl records"
    using Cons.IH Cons.prems by simp
  show ?case by (simp add: m ih cong: sum.case_cong)
qed


section \<open>The claims\<close>

text \<open>
  C2, as the code has it: when the wrapped callable returns a value, \<^verbatim>\<open>decorated\<close> returns
  \<^verbatim>\<open>None\<close>, whatever the value was; the world is the one the callable left, with nothing
  printed or logged by the wrapper.
\<close>

theorem decorated_discards_return_value:
  assumes "func w = (Returned v, w1)"
  shows "decorated cfg func timestamp w = (Inr PyNone, w1)"
  using assms by (simp add: decorated_def)

theorem decorated_discards_return_value_witness:
  "returns_42 world0 = (Returned (Obj (Inr ''42'')), world0)
   \<and> decorated cfg_print returns_42 ''2024-01-01 00:00:00'' world0 = (Inr PyNone, world0)"
  using decorated_discards_return_value
    [of returns_42 world0 "Obj (Inr ''42'')" world0 cfg_print "''2024-01-01 00:00:00''"]
  by (simp add: returns_42_def)

text \<open>
  C2 as the claim states it fails: a callable that returns the object printed as \<^verbatim>\<open>42\<close>
  is decorated into one that returns \<^verbatim>\<open>None\<close>.
\<close>

theorem return_value_counterexample:
  "returns_42 world0 = (Returned (Obj (Inr ''42'')), world0)
   \<and> fst (decorated cfg_print returns_42 ''2024-01-01 00:00:00'' world0) = Inr PyNone
   \<and> PyNone \<noteq> Obj (Inr ''42'')"
  by (simp add: decorated_def returns_42_def)

text \<open>
  C10: \<^verbatim>\<open>decorated\<close> takes no parameter, so a call with any positional or keyword
  argument fails with \<^verbatim>\<open>TypeError\<close> while the arguments are bound: the body, and with
  it the handler that absorbs exceptions, is never entered, the wrapped callable
  does not run and the world is untouched.
\<close>

theorem decorated_rejects_arguments:
  assumes "args \<noteq> [] \<or> kwargs \<noteq> []"
  shows "bind_args [] args kwargs = Inl TypeError
       \<and> call_decorated cfg func timestamp args kwargs w = (Inl TypeError, w)"
  using assms by (auto simp: call_decorated_def bind_args_def bind_keywords_no_params)

theorem decorated_rejects_arguments_witness:
  "[PyNone] \<noteq> [] \<and> [(''x'', PyNone)] \<noteq> []
   \<and> call_decorated cfg_print returns_42 ''2024-01-01 00:00:00'' [PyNone] [] world0
       = (Inl TypeError, world0)
   \<and> call_decorated cfg_print returns_42 ''2024-01-01 00:00:00'' [] [(''x'', PyNone)] world0
       = (Inl TypeError, world0)"
  using decorated_rejects_arguments
      [of "[PyNone]" "[]" cfg_print returns_42 "''2024-01-01 00:00:00''" world0]
    decorated_rejects_arguments
      [of "[]" "[(''x'', PyNone)]" cfg_print returns_42 "''2024-01-01 00:00:00''" world0]
  by simp

text \<open>
  C4: when the report is built, the section of a frame in which \<^verbatim>\<open>cgitb.scanvars\<close> has
  found a name of \<^verbatim>\<open>key_vars\<close> is part of the report; it is the line with file and
  line number, the heading "Detected relevant vars" with the lines of the detected
  entries and, if there are manually traced entries, the heading "Other traced vars"
  with their lines. The name is carried by exactly one entry under the first heading
  and by no entry under the second.
\<close>

theorem auto_detected_name_once:
  assumes "variable_catching ks records = Inr msg" and "fr \<in> set records"
    and "name \<in> set ks" and "name \<in> fst ` set (scanvars fr)"
  shows "msg = ''/*Variables*/\<newline>'' @ concat (map (findings_section ks) records)
       \<and> findings_section ks fr =
           f_file fr @ '', line '' @ str_nat (f_lnum fr) @ ''\<newline>''
           @ ''|-- Detected relevant vars:\<newline>'' @ concat (map finding_line (detected fr))
           @ (if traced ks fr = [] then []
              else ''|-- Other traced vars:\<newline>'' @ concat (map finding_line (traced ks fr)))
       \<and> length (filter (\<lambda>v. fst v = name) (detected fr)) = 1
       \<and> name \<notin> fst ` set (traced ks fr)"
proof -
  have n: "name \<in> fst ` set (detected fr)"
    using assms(4) by (simp add: detected_def first_by_name_names)
  then have d: "detected fr \<noteq> []" by auto
  have one: "length (filter (\<lambda>v. fst v = name) (detected fr)) = 1"
    using n unfolding detected_def by (rule count_name_distinct [OF first_by_name_distinct])
  have "name \<notin> fst ` set (manual_caught ks fr)"
    using assms(4) by (simp add: manual_caught_names)
  then have none: "name \<notin> fst ` set (traced ks fr)"
    by (simp add: traced_def first_by_name_names)
  have h: "variables_heading ks records = ''/*Variables*/\<newline>''"
    unfolding variables_heading_def using assms(2) d by auto
  have "msg = ''/*Variables*/\<newline>'' @ concat (map (findings_section ks) records)"
    using variable_catching_findings [OF assms(1)] unfolding h .
  moreover have "findings_section ks fr =
           f_file fr @ '', line '' @ str_nat (f_lnum fr) @ ''\<newline>''
           @ ''|-- Detected relevant vars:\<newline>'' @ concat (map finding_line (detected fr))
           @ (if traced ks fr = [] then []
              else ''|-- Other traced vars:\<newline>'' @ concat (map finding_line (traced ks fr)))"
    using d by (simp add: findings_section_def)
  ultimately show ?thesis using one none by blast
qed

theorem auto_detected_name_once_witness:
  "''i'' \<in> set [''i'', ''l''] \<and> ''i'' \<in> fst ` set (scanvars frame_foo)
   \<and> detected frame_foo = [(''k'', Some ''local'', Obj (Inr ''2'')), (''i'', Some ''local'', Obj (Inr ''0''))]
   \<and> traced [''i'', ''l''] frame_foo = [(''l'', Some ''global'', Obj (Inr ''4''))]
   \<and> variable_catching [''i'', ''l''] [frame_foo] =
       Inr ''/*Variables*/\<newline>test.py, line 26\<newline>|-- Detected relevant vars:\<newline>  |-- local: k = 2\<newline>  |-- local: i = 0\<newline>|-- Other traced vars:\<newline>  |-- global: l = 4\<newline>''"
  using auto_detected_name_once [of "[''i'', ''l'']" "[frame_foo]"
      "''/*Variables*/\<newline>test.py, line 26\<newline>|-- Detected relevant vars:\<newline>  |-- local: k = 2\<newline>  |-- local: i = 0\<newline>|-- Other traced vars:\<newline>  |-- global: l = 4\<newline>''"
      frame_foo "''i''"]
  by (simp add: frame_foo_def eval_defs detected_def traced_def)

text \<open>
  C5 as the claim states it fails. In a frame that fails at \<^verbatim>\<open>print(x)\<close>, neither \<^verbatim>\<open>x\<close> nor
  \<^verbatim>\<open>len\<close> is a local or a global name, and both are listed in \<^verbatim>\<open>key_vars\<close>. The report has
  a line for \<^verbatim>\<open>x\<close>, which \<^verbatim>\<open>cgitb.scanvars\<close> found on the failing line, and a line for \<^verbatim>\<open>len\<close>,
  which \<^verbatim>\<open>cgitb.lookup\<close> finds among the builtins.
\<close>

theorem unresolved_key_var_counterexample:
  "f_locals frame_print_x ''x'' = None \<and> f_globals frame_print_x ''x'' = None
   \<and> f_locals frame_print_x ''len'' = None \<and> f_globals frame_print_x ''len'' = None
   \<and> variable_catching [''x'', ''len''] [frame_print_x] =
       Inr ''/*Variables*/\<newline>t.py, line 3\<newline>|-- Detected relevant vars:\<newline>  |-- builtin: print = <built-in function print>\<newline>  |-- None: x = []\<newline>|-- Other traced vars:\<newline>  |-- builtin: len = <built-in function len>\<newline>''"
  by (simp add: frame_print_x_def eval_defs)

text \<open>
  C5, as the code has it: a name that in every visited frame is neither a local, a
  global nor a builtin name, and that \<^verbatim>\<open>cgitb.scanvars\<close> has found on no frame's failing
  line, contributes nothing: \<^verbatim>\<open>variable_catching\<close> gives what it gives without the name
  in \<^verbatim>\<open>key_vars\<close>, and when the report is built no entry behind any of its lines
  carries the name.
\<close>

theorem unresolved_key_var_omitted:
  assumes "\<forall>fr\<in>set records. f_locals fr name = None \<and> f_globals fr name = None
             \<and> f_builtins fr name = None \<and> name \<notin> fst ` set (scanvars fr)"
  shows "variable_catching ks records = variable_catching (removeAll name ks) records
       \<and> (\<forall>msg. variable_catching ks records = Inr msg \<longrightarrow>
             msg = variables_heading ks records @ concat (map (findings_section ks) records))
       \<and> (\<forall>fr\<in>set records. \<forall>v\<in>set (detected fr) \<union> set (traced ks fr). fst v \<noteq> name)"
proof -
  have l: "\<forall>fr\<in>set records. fst (lookup name fr (f_locals fr)) = None"
    using assms by (simp add: lookup_None_iff)
  then have "\<forall>fr\<in>set records. \<not> truthy (fst (lookup name fr (f_locals fr)))" by simp
  then have 1: "variable_catching ks records = variable_catching (removeAll name ks) records"
    unfolding variable_catching_def by (simp add: catching_loop_removeAll)
  have 3: "\<forall>fr\<in>set records. \<forall>v\<in>set (detected fr) \<union> set (traced ks fr). fst v \<noteq> name"
  proof (intro ballI)
    fix fr v
    assume fr: "fr \<in> set records" and v: "v \<in> set (detected fr) \<union> set (traced ks fr)"
    have "name \<notin> fst ` set (manual_caught ks fr)"
      using l fr by (simp add: manual_caught_names)
    then have "name \<notin> fst ` set (traced ks fr)"
      by (simp add: traced_def first_by_name_names)
    moreover have "name \<notin> fst ` set (detected fr)"
      using assms fr by (simp add: detected_def first_by_name_names)
    ultimately show "fst v \<noteq> name" using v by auto
  qed
  show ?thesis using 1 3 variable_catching_findings by blast
qed

theorem unresolved_key_var_omitted_witness:
  "f_locals frame_foo ''zz'' = None \<and> f_globals frame_foo ''zz'' = None
   \<and> f_builtins frame_foo ''zz'' = None
   \<and> ''zz'' \<notin> fst ` set (scanvars frame_foo)
   \<and> variable_catching [''l''] [frame_foo] = variable_catching [''zz'', ''l''] [frame_foo]
   \<and> variable_catching [''zz'', ''l''] [frame_foo] =
       Inr ''/*Variables*/\<newline>test.py, line 26\<newline>|-- Detected relevant vars:\<newline>  |-- local: k = 2\<newline>  |-- local: i = 0\<newline>|-- Other traced vars:\<newline>  |-- global: l = 4\<newline>''"
  using unresolved_key_var_omitted [of "[frame_foo]" "''zz''" "[''zz'', ''l'']"]
  by (simp add: frame_foo_def eval_defs)







text \<open>
  C3 as the claim states it fails: for a local \<^verbatim>\<open>x\<close> whose string conversion gives 300
  characters, the report line shows the first 189 characters of the value, not the
  first 200: the cut is made on the whole text \<^verbatim>\<open>local: x = ...\<close>.
\<close>

theorem truncation_counterexample:
  "scanvars frame_long = [(''x'', Some ''local'', Obj (Inr (replicate 300 (CHR ''a''))))]
   \<and> py_format (Obj (Inr (replicate 300 (CHR ''a'')))) = Inr (replicate 300 (CHR ''a''))
   \<and> variable_catching [] [frame_long] =
       Inr (''/*Variables*/\<newline>big.py, line 7\<newline>|-- Detected relevant vars:\<newline>  |-- local: x = ''
            @ replicate 189 (CHR ''a'') @ ''\<newline>'')
   \<and> replicate 189 (CHR ''a'') \<noteq> take 200 (replicate 300 (CHR ''a''))"
proof -
  have "replicate 189 (CHR ''a'') \<noteq> take 200 (replicate 300 (CHR ''a''))"
  proof
    assume "replicate 189 (CHR ''a'') = take 200 (replicate 300 (CHR ''a''))"
    then have "length (replicate 189 (CHR ''a'')) = length (take 200 (replicate 300 (CHR ''a'')))"
      by (rule arg_cong)
    then show False by simp
  qed
  then show ?thesis
    by (simp add: frame_long_def eval_defs)
qed

text \<open>
  C3, as the code has it: when the report is built, it is the heading followed by the
  sections of the frames, and in a section the line of each finding, detected or
  manually traced, is the marker, then the first 200 characters of the finding's full
  text, then the line break. The full text is what \<^verbatim>\<open>parse_vars\<close> makes of the entry:
  place, name and converted value, or the name and "undefined". So the cut counts the
  place and the name, and shows less than 200 characters of a long value.
\<close>

theorem finding_lines_cut_to_200:
  assumes "variable_catching ks records = Inr msg"
  shows "msg = variables_heading ks records @ concat (map (findings_section ks) records)
       \<and> (\<forall>fr\<in>set records. \<forall>v\<in>set (detected fr) \<union> set (traced ks fr).
             entry_text v = Inr (finding_text v)
             \<and> finding_line v = ''  |-- '' @ take 200 (finding_text v) @ ''\<newline>''
             \<and> length (finding_line v) \<le> 207)"
proof -
  have r: "\<forall>fr\<in>set records. renders ks fr"
    using assms variable_catching_Inr_iff [of ks records] by simp
  have "\<forall>fr\<in>set records. \<forall>v\<in>set (detected fr) \<union> set (traced ks fr).
          entry_text v = Inr (finding_text v)"
    using r renders_lines(3) by blast
  moreover have "\<And>v. length (finding_line v) \<le> 207"
    by (simp add: finding_line_def)
  ultimately show ?thesis
    using variable_catching_findings [OF assms] by (simp add: finding_line_def)
qed

theorem finding_lines_cut_to_200_witness:
  "variable_catching [] [frame_long] =
     Inr (''/*Variables*/\<newline>big.py, line 7\<newline>|-- Detected relevant vars:\<newline>''
          @ finding_line (''x'', Some ''local'', Obj (Inr (replicate 300 (CHR ''a'')))))
   \<and> finding_text (''x'', Some ''local'', Obj (Inr (replicate 300 (CHR ''a''))))
       = ''local: x = '' @ replicate 300 (CHR ''a'')
   \<and> finding_line (''x'', Some ''local'', Obj (Inr (replicate 300 (CHR ''a''))))
       = ''  |-- local: x = '' @ replicate 189 (CHR ''a'') @ ''\<newline>''"
  using finding_lines_cut_to_200 [of "[]" "[frame_long]"
      "''/*Variables*/\<newline>big.py, line 7\<newline>|-- Detected relevant vars:\<newline>''
          @ finding_line (''x'', Some ''local'', Obj (Inr (replicate 300 (CHR ''a''))))"]
  by (simp add: frame_long_def eval_defs finding_line_def finding_text_def)

text \<open>
  C8: when \<^verbatim>\<open>variable_catching\<close> returns, its text is empty if no frame has an entry,
  and otherwise it is the heading \<^verbatim>\<open>/*Variables*/\<close> once, followed by the sections of
  the frames in order; the section of a frame without an entry is empty, and the
  section of any other frame is the line with file and line number, then the
  detected variables, then the other traced variables (\<^const>\<open>frame_section\<close>).
\<close>

theorem variables_section_layout:
  assumes "variable_catching ks records = Inr msg"
  shows "msg = (if \<forall>fr\<in>set records. scanvars fr = [] \<and> manual_caught ks fr = [] then []
                else ''/*Variables*/\<newline>'' @ concat (map (frame_section ks) records))
       \<and> (\<forall>fr\<in>set records. scanvars fr = [] \<and> manual_caught ks fr = [] \<longrightarrow> frame_section ks fr = [])"
proof -
  have r: "\<forall>fr\<in>set records. renders ks fr"
    using assms variable_catching_Inr_iff [of ks records] by simp
  then have h: "\<forall>fr\<in>set records. has_findings ks fr \<longleftrightarrow> scanvars fr \<noteq> [] \<or> manual_caught ks fr \<noteq> []"
    by (simp add: has_findings_iff)
  have e: "\<forall>fr\<in>set records. scanvars fr = [] \<and> manual_caught ks fr = [] \<longrightarrow> frame_section ks fr = []"
    using h by (auto simp: frame_section_def has_findings_def)
  have "msg = (if \<exists>fr\<in>set records. has_findings ks fr then ''/*Variables*/\<newline>'' else [])
                @ concat (map (frame_section ks) records)"
    using assms variable_catching_sections [OF r] by simp
  moreover have "(\<exists>fr\<in>set records. has_findings ks fr) \<longleftrightarrow>
      \<not> (\<forall>fr\<in>set records. scanvars fr = [] \<and> manual_caught ks fr = [])"
    using h by blast
  moreover have "(\<forall>fr\<in>set records. scanvars fr = [] \<and> manual_caught ks fr = []) \<Longrightarrow>
      concat (map (frame_section ks) records) = []"
    using e by simp
  ultimately show ?thesis using e by simp
qed

theorem variables_section_layout_witness:
  "variable_catching [''zz''] [frame_quiet] = Inr []
   \<and> variable_catching [''l''] [frame_quiet, frame_foo] =
       Inr (''/*Variables*/\<newline>'' @ frame_section [''l''] frame_quiet @ frame_section [''l''] frame_foo)
   \<and> frame_section [''l''] frame_quiet = []
   \<and> frame_section [''l''] frame_foo =
       ''test.py, line 26\<newline>|-- Detected relevant vars:\<newline>  |-- local: k = 2\<newline>  |-- local: i = 0\<newline>|-- Other traced vars:\<newline>  |-- global: l = 4\<newline>''"
  using variables_section_layout [of "[''zz'']" "[frame_quiet]" "[]"]
    variables_section_layout [of "[''l'']" "[frame_quiet, frame_foo]"
      "''/*Variables*/\<newline>'' @ frame_section [''l''] frame_quiet @ frame_section [''l''] frame_foo"]
  by (simp add: frame_quiet_def frame_foo_def eval_defs frame_section_def has_findings_def
        auto_lines_def manual_lines_def entry_line_def)







end
